theory Spec2Isabelle
  imports Complex_Main
begin

section \<open>The Roth Touchline client, rothServer.go\<close>

text \<open>
  The client talks to a thermostat controller that answers a list of item names with a
  list of (name, value) string pairs. This theory embeds the functions of
  \<^verbatim>\<open>rothServer.go\<close>: \<^verbatim>\<open>GetSensorCount\<close>, \<^verbatim>\<open>GetSensors\<close>, the three
  setters, \<^verbatim>\<open>writeValue\<close> and \<^verbatim>\<open>GetValveState\<close>, together with the parts of Go's
  standard library they rest on (\<^verbatim>\<open>strconv.ParseInt\<close>, \<^verbatim>\<open>strconv.Itoa\<close>,
  \<^verbatim>\<open>strconv.FormatFloat\<close>, the regular expression of \<^verbatim>\<open>GetSensors\<close>, and
  \<^verbatim>\<open>float32\<close> arithmetic), written out as Go documents and implements them.

  Go strings are byte strings: \<^typ>\<open>string\<close>. Go's \<^verbatim>\<open>int\<close> is the 64-bit signed
  integer, modelled by \<^typ>\<open>int\<close> with the wrap-around written out at the one place
  where a product of caller-supplied values is formed (\<^verbatim>\<open>sensorCount*5\<close>).
  A Go function that returns \<^verbatim>\<open>(value, error)\<close> returns a \<open>result\<close>; a run-time
  panic is a result of its own, since no value and no error is returned then.
\<close>

subsection \<open>Results, errors and panics\<close>

datatype panic =
    IndexOutOfRange int int   \<comment> \<open>index, length\<close>
  | MakeSliceLen int          \<comment> \<open>\<^verbatim>\<open>makeslice: len out of range\<close>\<close>

datatype 'a result =
    Return 'a        \<comment> \<open>\<^verbatim>\<open>return v, nil\<close>\<close>
  | Failed string    \<comment> \<open>\<^verbatim>\<open>return zero, errors.New(msg)\<close>\<close>
  | Panicked panic

subsection \<open>Decimal digits: \<^verbatim>\<open>strconv.Itoa\<close> and \<^verbatim>\<open>%v\<close> of an int\<close>

definition is_digit :: "char \<Rightarrow> bool" where
  "is_digit c = (48 \<le> (of_char c :: nat) \<and> (of_char c :: nat) \<le> 57)"

definition digit_val :: "char \<Rightarrow> nat" where
  "digit_val c = of_char c - 48"

definition digit_char :: "nat \<Rightarrow> char" where
  "digit_char d = char_of (48 + d)"

fun digits_of :: "nat \<Rightarrow> string" where
  "digits_of n = (if n < 10 then [digit_char n] else digits_of (n div 10) @ [digit_char (n mod 10)])"

declare digits_of.simps [simp del]

definition Itoa :: "int \<Rightarrow> string" where
  "Itoa i = (if i < 0 then CHR ''-'' # digits_of (nat (- i)) else digits_of (nat i))"

text \<open>The number a digit string denotes, read most significant digit first.\<close>

definition digits_val :: "string \<Rightarrow> nat" where
  "digits_val ds = foldl (\<lambda>n c. n * 10 + digit_val c) 0 ds"

subsection \<open>\<^verbatim>\<open>strconv.ParseUint\<close> and \<^verbatim>\<open>strconv.ParseInt\<close> in base 10\<close>

datatype num_error = ErrSyntax | ErrRange

text \<open>
  Go documents \<^verbatim>\<open>ParseInt(s, base, bitSize)\<close> so: if \<^verbatim>\<open>s\<close> is empty or contains
  invalid digits, the error is \<^verbatim>\<open>ErrSyntax\<close> and the returned value is 0; if the value
  cannot be represented by a signed integer of the given size, the error is
  \<^verbatim>\<open>ErrRange\<close> and the returned value is the maximum magnitude integer of the
  appropriate \<^verbatim>\<open>bitSize\<close> and sign. The definitions follow its implementation.

  The loop of \<^verbatim>\<open>ParseUint\<close> over the bytes, in \<^verbatim>\<open>uint64\<close> arithmetic. A byte that
  is not a decimal digit is a syntax error with value 0. When the number leaves the
  range the loop returns at once with \<^verbatim>\<open>maxVal\<close> and a range error, without looking
  at the bytes that follow.
\<close>

definition uint64_cutoff :: nat where
  "uint64_cutoff = (2 ^ 64 - 1) div 10 + 1"

fun ParseUint_loop :: "nat \<Rightarrow> nat \<Rightarrow> string \<Rightarrow> nat \<times> num_error option" where
  "ParseUint_loop maxVal n [] = (n, None)"
| "ParseUint_loop maxVal n (c # cs) =
     (if \<not> is_digit c then (0, Some ErrSyntax)
      else if n \<ge> uint64_cutoff then (maxVal, Some ErrRange)
      else let n10 = n * 10;
               n1 = (n10 + digit_val c) mod 2 ^ 64
           in if n1 < n10 \<or> n1 > maxVal then (maxVal, Some ErrRange)
              else ParseUint_loop maxVal n1 cs)"

definition ParseUint :: "string \<Rightarrow> nat \<Rightarrow> nat \<times> num_error option" where
  "ParseUint s bitSize =
     (if s = [] then (0, Some ErrSyntax)
      else ParseUint_loop (2 ^ bitSize - 1) 0 s)"

definition ParseInt :: "string \<Rightarrow> nat \<Rightarrow> int \<times> num_error option" where
  "ParseInt s bitSize =
     (if s = [] then (0, Some ErrSyntax)
      else
        let neg = (hd s = CHR ''-'');
            s1 = (if hd s = CHR ''+'' \<or> hd s = CHR ''-'' then tl s else s);
            (un, err) = ParseUint s1 bitSize
        in if err = Some ErrSyntax then (0, Some ErrSyntax)
           else
             let cutoff = (2 :: nat) ^ (bitSize - 1)
             in if \<not> neg \<and> un \<ge> cutoff then (int cutoff - 1, Some ErrRange)
                else if neg \<and> un > cutoff then (- int cutoff, Some ErrRange)
                else (if neg then - int un else int un, None))"

subsection \<open>The read transport\<close>

record readRequestItem =
  ReqName :: string

record responseItem =
  ItemName :: string
  Value :: string

text \<open>
  \<^verbatim>\<open>readValues\<close> serialises the request, posts it and parses the XML answer. The
  controller and the network are the environment: a \<open>server\<close> maps the URL and the
  requested names to what the exchange produced.
\<close>

datatype exchange =
    PostFailed
  | ReadFailed
  | BadXML
  | Body "responseItem list"

type_synonym server = "string \<Rightarrow> string list \<Rightarrow> exchange"

definition readValues :: "server \<Rightarrow> string \<Rightarrow> readRequestItem list \<Rightarrow> responseItem list result" where
  "readValues srv managementURL req =
     (case srv (managementURL @ ''/cgi-bin/ILRReadValues.cgi'') (map ReqName req) of
        PostFailed \<Rightarrow> Failed ''error requesting data from server''
      | ReadFailed \<Rightarrow> Failed ''error reading response''
      | BadXML \<Rightarrow> Failed ''error parsing xml''
      | Body items \<Rightarrow> Return items)"

subsection \<open>\<^verbatim>\<open>GetSensorCount\<close>\<close>

definition GetSensorCount :: "server \<Rightarrow> string \<Rightarrow> int result" where
  "GetSensorCount srv managementURL =
     (case readValues srv managementURL [\<lparr>ReqName = ''totalNumberOfDevices''\<rparr>] of
        Failed e \<Rightarrow> Failed e
      | Panicked p \<Rightarrow> Panicked p
      | Return items \<Rightarrow>
          if length items = 0 then Failed ''no values returned''
          else
            let (intValue, err) = ParseInt (Value (items ! 0)) 8
            in if err \<noteq> None then Failed (''Unexpected value '' @ Value (items ! 0))
               else Return intValue)"

text \<open>
  What the words "a decimal integer" mean, independently of the parser: an optional sign
  followed by one or more decimal digits, denoting the signed number.
\<close>

definition decimal_int :: "string \<Rightarrow> int option" where
  "decimal_int s =
     (case s of
        [] \<Rightarrow> None
      | c # cs \<Rightarrow>
          let ds = (if c = CHR ''+'' \<or> c = CHR ''-'' then cs else s)
          in if ds \<noteq> [] \<and> list_all is_digit ds
             then Some (if c = CHR ''-'' then - int (digits_val ds) else int (digits_val ds))
             else None)"

subsection \<open>\<^verbatim>\<open>float32\<close>\<close>

text \<open>
  A \<^verbatim>\<open>float32\<close> is an IEEE 754 binary32 number: a sign and, when finite, an exact
  rational magnitude of the form \<open>n * 2 ^ q\<close> with \<open>n < 2 ^ 24\<close> and \<open>-149 \<le> q \<le> 104\<close>.
  Every arithmetic operation returns the exact result rounded to the nearest such
  number, ties to the even significand, and to infinity from \<open>2 ^ 128 - 2 ^ 103\<close> on.
\<close>

datatype float32 =
    Finite bool rat     \<comment> \<open>sign bit (True: negative), magnitude\<close>
  | Infinity bool
  | NaN

definition pow2 :: "int \<Rightarrow> rat" where
  "pow2 e = (if 0 \<le> e then 2 ^ nat e else 1 / 2 ^ nat (- e))"

fun bits_Len :: "nat \<Rightarrow> nat" where
  "bits_Len n = (if n = 0 then 0 else Suc (bits_Len (n div 2)))"

declare bits_Len.simps [simp del]

text \<open>The exponent \<open>e\<close> with \<open>2 ^ e \<le> x < 2 ^ (e + 1)\<close>, for \<open>x > 0\<close>.\<close>

definition floor_log2 :: "rat \<Rightarrow> int" where
  "floor_log2 x =
     (if 1 \<le> x then int (bits_Len (nat \<lfloor>x\<rfloor>)) - 1
      else - int (bits_Len (nat \<lceil>1 / x\<rceil> - 1)))"

definition round_half_even :: "rat \<Rightarrow> int" where
  "round_half_even x =
     (let f = \<lfloor>x\<rfloor>; d = x - of_int f
      in if d < 1 / 2 then f
         else if 1 / 2 < d then f + 1
         else if even f then f else f + 1)"

definition f32_round :: "bool \<Rightarrow> rat \<Rightarrow> float32" where
  "f32_round neg x =
     (if x = 0 then Finite neg 0
      else
        let q = max (floor_log2 x - 23) (- 149);
            r = of_int (round_half_even (x / pow2 q)) * pow2 q
        in if pow2 128 \<le> r then Infinity neg else Finite neg r)"

text \<open>The conversion \<^verbatim>\<open>float32(i)\<close> of an integer.\<close>

definition f32_of_int :: "int \<Rightarrow> float32" where
  "f32_of_int i = f32_round (i < 0) (of_int \<bar>i\<bar>)"

fun f32_mul :: "float32 \<Rightarrow> float32 \<Rightarrow> float32" where
  "f32_mul NaN y = NaN"
| "f32_mul x NaN = NaN"
| "f32_mul (Infinity s) (Infinity t) = Infinity (s \<noteq> t)"
| "f32_mul (Infinity s) (Finite t b) = (if b = 0 then NaN else Infinity (s \<noteq> t))"
| "f32_mul (Finite s a) (Infinity t) = (if a = 0 then NaN else Infinity (s \<noteq> t))"
| "f32_mul (Finite s a) (Finite t b) = f32_round (s \<noteq> t) (a * b)"

fun f32_div :: "float32 \<Rightarrow> float32 \<Rightarrow> float32" where
  "f32_div NaN y = NaN"
| "f32_div x NaN = NaN"
| "f32_div (Infinity s) (Infinity t) = NaN"
| "f32_div (Infinity s) (Finite t b) = Infinity (s \<noteq> t)"
| "f32_div (Finite s a) (Infinity t) = Finite (s \<noteq> t) 0"
| "f32_div (Finite s a) (Finite t b) =
     (if b = 0 then (if a = 0 then NaN else Infinity (s \<noteq> t))
      else f32_round (s \<noteq> t) (a / b))"

text \<open>The comparison \<^verbatim>\<open><\<close>: false when an operand is NaN, and \<open>-0 < +0\<close> is false.\<close>

fun f32_lt :: "float32 \<Rightarrow> float32 \<Rightarrow> bool" where
  "f32_lt NaN y = False"
| "f32_lt x NaN = False"
| "f32_lt (Infinity s) (Infinity t) = (s \<and> \<not> t)"
| "f32_lt (Infinity s) (Finite t b) = s"
| "f32_lt (Finite s a) (Infinity t) = (\<not> t)"
| "f32_lt (Finite s a) (Finite t b) = ((if s then - a else a) < (if t then - b else b))"

text \<open>
  \<^verbatim>\<open>strconv.FormatFloat(float64(x), 'f', 0, 32)\<close> for a \<^verbatim>\<open>float32\<close> \<open>x\<close>: the widening
  to \<^verbatim>\<open>float64\<close> and the narrowing inside \<^verbatim>\<open>FormatFloat\<close> are exact. With format
  \<^verbatim>\<open>'f'\<close> and precision 0 the exact decimal expansion of the magnitude is rounded to an
  integer (\<^verbatim>\<open>decimal.Round\<close>: up from the digit 5 on, an exact half to the even
  neighbour) and printed after the sign.
\<close>

fun FormatFloat_f0 :: "float32 \<Rightarrow> string" where
  "FormatFloat_f0 NaN = ''NaN''"
| "FormatFloat_f0 (Infinity s) = (if s then ''-Inf'' else ''+Inf'')"
| "FormatFloat_f0 (Finite s m) =
     (if s then ''-'' else []) @ digits_of (nat (round_half_even m))"

subsection \<open>Sensors\<close>

record Sensor =
  Id :: int
  Name :: string
  RoomTemperature :: float32
  TargetTemperature :: float32
  Program :: int
  Mode :: int




definition GetValveValue :: "Sensor \<Rightarrow> int" where
  "GetValveValue s =
     (if f32_lt (RoomTemperature s) (TargetTemperature s) then 1 else 0)"

text \<open>The zero value of the struct, which \<^verbatim>\<open>make([]Sensor, n)\<close> fills the slice with.\<close>

definition zero_Sensor :: Sensor where
  "zero_Sensor = \<lparr>Id = 0, Name = [], RoomTemperature = Finite False 0,
     TargetTemperature = Finite False 0, Program = 0, Mode = 0\<rparr>"

subsection \<open>The pattern of \<^verbatim>\<open>GetSensors\<close>\<close>

text \<open>
  \<^verbatim>\<open>regexp.MustCompile(`^G([0-9]+)\.(.+)$`).FindStringSubmatch(name)\<close>: the letter G, one
  or more decimal digits, a dot, and one or more bytes other than the line feed, up to
  the end of the text. The digits are followed by a dot, which is no digit, so the first
  group is the longest run of digits. The result is the two groups, or \<open>None\<close> for Go's
  empty slice.
\<close>

definition sensorInfoParser :: "string \<Rightarrow> (string \<times> string) option" where
  "sensorInfoParser s =
     (case s of
        [] \<Rightarrow> None
      | g # rest \<Rightarrow>
          if g \<noteq> CHR ''G'' then None
          else
            let ds = takeWhile is_digit rest
            in if ds = [] then None
               else (case dropWhile is_digit rest of
                       [] \<Rightarrow> None
                     | dot # fld \<Rightarrow>
                         if dot \<noteq> CHR ''.'' \<or> fld = [] \<or> CHR 0x0A \<in> set fld then None
                         else Some (ds, fld)))"

subsection \<open>\<^verbatim>\<open>GetSensors\<close>: the request\<close>

definition and_then :: "'a result \<Rightarrow> ('a \<Rightarrow> 'b result) \<Rightarrow> 'b result" where
  "and_then r f = (case r of Return x \<Rightarrow> f x | Failed e \<Rightarrow> Failed e | Panicked p \<Rightarrow> Panicked p)"

text \<open>The value of an \<^verbatim>\<open>int\<close> expression after wrap-around to 64 bits.\<close>

definition int64 :: "int \<Rightarrow> int" where
  "int64 x = (x + 2 ^ 63) mod 2 ^ 64 - 2 ^ 63"

text \<open>
  \<^verbatim>\<open>make([]T, n)\<close> panics for a negative length. Memory is not modelled: every
  non-negative length is granted.
\<close>

definition make_slice :: "'a \<Rightarrow> int \<Rightarrow> 'a list result" where
  "make_slice zero n =
     (if n < 0 then Panicked (MakeSliceLen n) else Return (replicate (nat n) zero))"

text \<open>The assignment \<^verbatim>\<open>req.Items[i].Name = v\<close>, with Go's bounds check.\<close>

definition set_Name :: "readRequestItem list \<Rightarrow> int \<Rightarrow> string \<Rightarrow> readRequestItem list result" where
  "set_Name items i v =
     (if 0 \<le> i \<and> i < int (length items) then Return (items[nat i := \<lparr>ReqName = v\<rparr>])
      else Panicked (IndexOutOfRange i (int (length items))))"

text \<open>\<^verbatim>\<open>fmt.Sprintf("G%v.<field>", i)\<close>\<close>

definition Sprintf_G :: "int \<Rightarrow> string \<Rightarrow> string" where
  "Sprintf_G i field = ''G'' @ Itoa i @ ''.'' @ field"

definition request_body :: "readRequestItem list \<Rightarrow> int \<Rightarrow> readRequestItem list result" where
  "request_body items0 i =
     and_then (set_Name items0 (i * 5 + 0) (Sprintf_G i ''RaumTemp'')) (\<lambda>items1.
     and_then (set_Name items1 (i * 5 + 1) (Sprintf_G i ''SollTemp'')) (\<lambda>items2.
     and_then (set_Name items2 (i * 5 + 2) (Sprintf_G i ''name'')) (\<lambda>items3.
     and_then (set_Name items3 (i * 5 + 3) (Sprintf_G i ''WeekProg'')) (\<lambda>items4.
     set_Name items4 (i * 5 + 4) (Sprintf_G i ''OPmode'')))))"

text \<open>
  The loop \<^verbatim>\<open>for i := 0; i < sensorCount; i++\<close>. An index \<open>i * 5 + k\<close> that left the
  64-bit range would lie beyond the slice, whose length is below \<open>2 ^ 63\<close>, and the loop
  has panicked at a smaller index by then: the indices are written without wrap-around.
\<close>

function request_loop :: "int \<Rightarrow> int \<Rightarrow> readRequestItem list \<Rightarrow> readRequestItem list result" where
  "request_loop i sensorCount items =
     (if i < sensorCount then
        (case request_body items i of
           Return items' \<Rightarrow> request_loop (i + 1) sensorCount items'
         | Failed e \<Rightarrow> Failed e
         | Panicked p \<Rightarrow> Panicked p)
      else Return items)"
  by pat_completeness auto
termination
  by (relation "measure (\<lambda>(i, sensorCount, items). nat (sensorCount - i))") auto

declare request_loop.simps [simp del]

definition build_request :: "int \<Rightarrow> readRequestItem list result" where
  "build_request sensorCount =
     and_then (make_slice \<lparr>ReqName = []\<rparr> (int64 (sensorCount * 5)))
       (request_loop 0 sensorCount)"

text \<open>
  The five field names, in the order of the request, and the five names \<open>G<i>.<field>\<close>
  of one index.
\<close>

definition field_names :: "string list" where
  "field_names = [''RaumTemp'', ''SollTemp'', ''name'', ''WeekProg'', ''OPmode'']"

definition request_names :: "int \<Rightarrow> string list" where
  "request_names i = map (\<lambda>field. ''G'' @ Itoa i @ ''.'' @ field) field_names"

subsection \<open>\<^verbatim>\<open>GetSensors\<close>: decoding the response\<close>

text \<open>
  The state of the decoding loop is the slice \<^verbatim>\<open>sensors\<close> and the lines printed so far
  by \<^verbatim>\<open>fmt.Printf\<close>. \<open>assign_field\<close> is lines 232 to 254, what one iteration does
  to the sensor that \<^verbatim>\<open>&sensors[int(sensorIndex)]\<close> points to; \<open>decode_item\<close> is one
  iteration of \<^verbatim>\<open>for i := 0; i < len(resp.Items); i++\<close>. The index is used whether or
  not its parsing reported an error.
\<close>

definition assign_field :: "int \<Rightarrow> string \<Rightarrow> string \<Rightarrow> Sensor \<Rightarrow> Sensor \<times> string list" where
  "assign_field sensorIndex valueName value sensor0 =
     (let (intValue, err) = ParseInt value 16;
          floatValue = (if err = None
                        then f32_div (f32_of_int intValue) (Finite False 100)
                        else Finite False 0);
          sensor = sensor0\<lparr>Id := sensorIndex\<rparr>
      in if valueName = ''RaumTemp'' then (sensor\<lparr>RoomTemperature := floatValue\<rparr>, [])
         else if valueName = ''SollTemp'' then (sensor\<lparr>TargetTemperature := floatValue\<rparr>, [])
         else if valueName = ''name'' then (sensor\<lparr>Name := value\<rparr>, [])
         else if valueName = ''WeekProg'' then (sensor\<lparr>Program := intValue\<rparr>, [])
         else if valueName = ''OPmode'' then (sensor\<lparr>Mode := intValue\<rparr>, [])
         else (sensor, [''Unexpected value name '' @ valueName]))"

definition decode_item :: "Sensor list \<times> string list \<Rightarrow> responseItem \<Rightarrow> (Sensor list \<times> string list) result" where
  "decode_item st item =
     (let (sensors, out) = st
      in case sensorInfoParser (ItemName item) of
           None \<Rightarrow> Return (sensors, out @ [''error parsing sensor info name: '' @ ItemName item])
         | Some (idx, valueName) \<Rightarrow>
             let (sensorIndex, err) = ParseInt idx 8;
                 out1 = (if err \<noteq> None then out @ [''Error parsing sensor index '' @ idx] else out)
             in if \<not> (0 \<le> sensorIndex \<and> sensorIndex < int (length sensors))
                then Panicked (IndexOutOfRange sensorIndex (int (length sensors)))
                else
                  let (sensor, msgs) =
                        assign_field sensorIndex valueName (Value item) (sensors ! nat sensorIndex)
                  in Return (sensors[nat sensorIndex := sensor], out1 @ msgs))"

fun decode_loop :: "Sensor list \<times> string list \<Rightarrow> responseItem list \<Rightarrow> (Sensor list \<times> string list) result" where
  "decode_loop st [] = Return st"
| "decode_loop st (item # items) =
     (case decode_item st item of
        Return st' \<Rightarrow> decode_loop st' items
      | Failed e \<Rightarrow> Failed e
      | Panicked p \<Rightarrow> Panicked p)"

text \<open>Lines 217 to 261: \<^verbatim>\<open>sensors = make([]Sensor, sensorCount)\<close>, the loop, the return.\<close>

definition decode_response :: "int \<Rightarrow> responseItem list \<Rightarrow> (Sensor list \<times> string list) result" where
  "decode_response sensorCount items =
     and_then (make_slice zero_Sensor sensorCount) (\<lambda>sensors. decode_loop (sensors, []) items)"

definition GetSensors :: "server \<Rightarrow> string \<Rightarrow> int \<Rightarrow> (Sensor list \<times> string list) result" where
  "GetSensors srv managementURL sensorCount =
     and_then (build_request sensorCount) (\<lambda>req.
     and_then (readValues srv managementURL req) (\<lambda>items.
     decode_response sensorCount items))"

subsection \<open>Writing values\<close>


text \<open>
  Line 183, \<^verbatim>\<open>strconv.FormatFloat(float64(targetTemperature*100), 'f', 0, 32)\<close>: the
  product is a \<^verbatim>\<open>float32\<close> product.
\<close>

definition temperatureToWire :: "float32 \<Rightarrow> string" where
  "temperatureToWire targetTemperature =
     FormatFloat_f0 (f32_mul targetTemperature (Finite False 100))"




section \<open>Properties\<close>

subsection \<open>The parsers on decimal integers\<close>

lemma digit_val_le: "is_digit c \<Longrightarrow> digit_val c \<le> 9"
  unfolding is_digit_def digit_val_def by linarith

lemma foldl_digits_ge: "n \<le> foldl (\<lambda>n c. n * 10 + digit_val c) n cs"
proof (induction cs arbitrary: n)
  case Nil
  show ?case by simp
next
  case (Cons c cs)
  have "n \<le> n * 10 + digit_val c" by simp
  also have "\<dots> \<le> foldl (\<lambda>n c. n * 10 + digit_val c) (n * 10 + digit_val c) cs"
    by (rule Cons.IH)
  finally show ?case by simp
qed

lemma ParseUint_loop_digits:
  assumes "list_all is_digit cs" and "maxVal \<le> 65535" and "n \<le> maxVal"
  shows "ParseUint_loop maxVal n cs =
           (if foldl (\<lambda>n c. n * 10 + digit_val c) n cs \<le> maxVal
            then (foldl (\<lambda>n c. n * 10 + digit_val c) n cs, None)
            else (maxVal, Some ErrRange))"
  using assms
proof (induction cs arbitrary: n)
  case Nil
  then show ?case by simp
next
  case (Cons c cs)
  let ?f = "\<lambda>n c. n * 10 + digit_val c"
  from Cons.prems have dc: "is_digit c" and rest: "list_all is_digit cs" by simp_all
  from Cons.prems have n: "n \<le> 65535" by simp
  have d9: "digit_val c \<le> 9" using dc by (rule digit_val_le)
  have small: "n * 10 + digit_val c < 2 ^ 64" using n d9 by simp
  have cut: "\<not> n \<ge> uint64_cutoff" using n by (simp add: uint64_cutoff_def)
  have m: "(n * 10 + digit_val c) mod 2 ^ 64 = n * 10 + digit_val c"
    using small by simp
  show ?case
  proof (cases "n * 10 + digit_val c > maxVal")
    case True
    have "n * 10 + digit_val c \<le> foldl ?f (n * 10 + digit_val c) cs"
      by (rule foldl_digits_ge)
    with True have "\<not> foldl ?f (n * 10 + digit_val c) cs \<le> maxVal" by simp
    with True dc cut m show ?thesis by (simp add: Let_def)
  next
    case False
    then have le: "n * 10 + digit_val c \<le> maxVal" by simp
    have "ParseUint_loop maxVal (n * 10 + digit_val c) cs =
            (if foldl ?f (n * 10 + digit_val c) cs \<le> maxVal
             then (foldl ?f (n * 10 + digit_val c) cs, None)
             else (maxVal, Some ErrRange))"
      using rest Cons.prems(2) le by (rule Cons.IH)
    with False dc cut m show ?thesis by (simp add: Let_def)
  qed
qed

lemma ParseUint_loop_nondigit:
  "\<not> list_all is_digit cs \<Longrightarrow>
     ParseUint_loop maxVal n cs = (0, Some ErrSyntax) \<or>
     ParseUint_loop maxVal n cs = (maxVal, Some ErrRange)"
  by (induction cs arbitrary: n) (auto simp: Let_def)

lemma ParseUint_digits:
  assumes "ds \<noteq> []" and "list_all is_digit ds" and "bitSize \<le> 16"
  shows "ParseUint ds bitSize =
           (if digits_val ds \<le> 2 ^ bitSize - 1 then (digits_val ds, None)
            else (2 ^ bitSize - 1, Some ErrRange))"
proof -
  have "(2::nat) ^ bitSize \<le> 2 ^ 16"
    using assms(3) by (intro power_increasing) simp_all
  then have mv: "(2::nat) ^ bitSize - 1 \<le> 65535" by simp
  have "ParseUint ds bitSize = ParseUint_loop (2 ^ bitSize - 1) 0 ds"
    using assms(1) by (simp add: ParseUint_def)
  also have "\<dots> = (if digits_val ds \<le> 2 ^ bitSize - 1 then (digits_val ds, None)
            else (2 ^ bitSize - 1, Some ErrRange))"
    unfolding digits_val_def using assms(2) mv by (rule ParseUint_loop_digits) simp
  finally show ?thesis .
qed

lemma ParseUint_nondigit:
  "\<not> (ds \<noteq> [] \<and> list_all is_digit ds) \<Longrightarrow>
     ParseUint ds bitSize = (0, Some ErrSyntax) \<or>
     ParseUint ds bitSize = (2 ^ bitSize - 1, Some ErrRange)"
  by (cases "ds = []") (simp_all add: ParseUint_def ParseUint_loop_nondigit)

lemma ParseInt_decimal:
  assumes "decimal_int s = Some v" and "b = 8 \<or> b = 16"
  shows "ParseInt s b =
           (if - (2 ^ (b - 1)) \<le> v \<and> v < 2 ^ (b - 1) then (v, None)
            else if v < 0 then (- (2 ^ (b - 1)), Some ErrRange)
            else (2 ^ (b - 1) - 1, Some ErrRange))"
proof -
  from assms(1) obtain c cs where s: "s = c # cs"
    by (cases s) (simp_all add: decimal_int_def)
  define ds where "ds = (if c = CHR ''+'' \<or> c = CHR ''-'' then cs else s)"
  from assms(1) s have ds: "ds \<noteq> []" "list_all is_digit ds"
    and v: "v = (if c = CHR ''-'' then - int (digits_val ds) else int (digits_val ds))"
    by (auto simp: decimal_int_def ds_def Let_def split: if_splits)
  have b16: "b \<le> 16" using assms(2) by auto
  have pu: "ParseUint ds b =
           (if digits_val ds \<le> 2 ^ b - 1 then (digits_val ds, None)
            else (2 ^ b - 1, Some ErrRange))"
    using ds b16 by (rule ParseUint_digits)
  have pi: "ParseInt s b =
        (let (un, err) = ParseUint ds b
         in if err = Some ErrSyntax then (0, Some ErrSyntax)
           else
             let cutoff = (2 :: nat) ^ (b - 1)
             in if \<not> c = CHR ''-'' \<and> un \<ge> cutoff then (int cutoff - 1, Some ErrRange)
                else if c = CHR ''-'' \<and> un > cutoff then (- int cutoff, Some ErrRange)
                else (if c = CHR ''-'' then - int un else int un, None))"
    by (simp add: ParseInt_def s ds_def Let_def)
  from assms(2) show ?thesis
  proof
    assume "b = 8"
    then show ?thesis unfolding pi pu v by (auto simp: Let_def)
  next
    assume "b = 16"
    then show ?thesis unfolding pi pu v by (auto simp: Let_def)
  qed
qed

lemma ParseInt_not_decimal:
  assumes "decimal_int s = None" and "b = 8 \<or> b = 16"
  shows "ParseInt s b = (0, Some ErrSyntax) \<or>
         ParseInt s b = (2 ^ (b - 1) - 1, Some ErrRange) \<or>
         ParseInt s b = (- (2 ^ (b - 1)), Some ErrRange)"
proof (cases s)
  case Nil
  then show ?thesis by (simp add: ParseInt_def)
next
  case (Cons c cs)
  define ds where "ds = (if c = CHR ''+'' \<or> c = CHR ''-'' then cs else s)"
  have pi: "ParseInt s b =
        (let (un, err) = ParseUint ds b
         in if err = Some ErrSyntax then (0, Some ErrSyntax)
           else
             let cutoff = (2 :: nat) ^ (b - 1)
             in if \<not> c = CHR ''-'' \<and> un \<ge> cutoff then (int cutoff - 1, Some ErrRange)
                else if c = CHR ''-'' \<and> un > cutoff then (- int cutoff, Some ErrRange)
                else (if c = CHR ''-'' then - int un else int un, None))"
    by (simp add: ParseInt_def Cons ds_def Let_def)
  from assms(1) Cons have "\<not> (ds \<noteq> [] \<and> list_all is_digit ds)"
    by (auto simp: decimal_int_def ds_def Let_def split: if_splits)
  then have "ParseUint ds b = (0, Some ErrSyntax) \<or>
     ParseUint ds b = (2 ^ b - 1, Some ErrRange)" by (rule ParseUint_nondigit)
  then show ?thesis
  proof
    assume "ParseUint ds b = (0, Some ErrSyntax)"
    then show ?thesis unfolding pi by simp
  next
    assume r: "ParseUint ds b = (2 ^ b - 1, Some ErrRange)"
    from assms(2) show ?thesis
    proof
      assume "b = 8"
      then show ?thesis unfolding pi r by (simp add: Let_def)
    next
      assume "b = 16"
      then show ?thesis unfolding pi r by (simp add: Let_def)
    qed
  qed
qed

lemma GetSensorCount_Body:
  assumes "srv (managementURL @ ''/cgi-bin/ILRReadValues.cgi'') [''totalNumberOfDevices''] = Body items"
  shows "GetSensorCount srv managementURL =
           (if items = [] then Failed ''no values returned''
            else if snd (ParseInt (Value (hd items)) 8) \<noteq> None
                 then Failed (''Unexpected value '' @ Value (hd items))
                 else Return (fst (ParseInt (Value (hd items)) 8)))"
  using assms
  by (cases items) (simp_all add: GetSensorCount_def readValues_def split_beta Let_def)

text \<open>
  C6. When the exchange yields a response, \<^verbatim>\<open>GetSensorCount\<close> fails with the error
  "no values returned" if the response has no item (it does not return the count 0); it
  fails with an error naming the value if the value of the first item is not a decimal
  integer the parser accepts; otherwise it returns the integer the value denotes.
\<close>

theorem GetSensorCount_outcome:
  assumes "srv (managementURL @ ''/cgi-bin/ILRReadValues.cgi'') [''totalNumberOfDevices''] = Body items"
  shows "GetSensorCount srv managementURL =
           (if items = [] then Failed ''no values returned''
            else case decimal_int (Value (hd items)) of
                   None \<Rightarrow> Failed (''Unexpected value '' @ Value (hd items))
                 | Some v \<Rightarrow>
                     if - 128 \<le> v \<and> v \<le> 127 then Return v
                     else Failed (''Unexpected value '' @ Value (hd items)))"
proof -
  note B = GetSensorCount_Body [of srv managementURL items, OF assms]
  show ?thesis
  proof (cases "items = []")
  case True
  then show ?thesis using B by simp
next
  case False
  show ?thesis
  proof (cases "decimal_int (Value (hd items))")
    case None
    then have "snd (ParseInt (Value (hd items)) 8) \<noteq> None"
      using ParseInt_not_decimal [of "Value (hd items)" 8] by auto
    with False None show ?thesis using B by simp
  next
    case (Some v)
    have "ParseInt (Value (hd items)) 8 =
           (if - 128 \<le> v \<and> v < 128 then (v, None)
            else if v < 0 then (- 128, Some ErrRange)
            else (127, Some ErrRange))"
      using ParseInt_decimal [OF Some, of 8] by simp
    with False Some show ?thesis using B by auto
  qed
qed
qed

theorem GetSensorCount_outcome_witness:
  "(\<lambda>u ns. if u = ''http://roth/cgi-bin/ILRReadValues.cgi'' \<and> ns = [''totalNumberOfDevices'']
             then Body [] else BadXML)
     (''http://roth'' @ ''/cgi-bin/ILRReadValues.cgi'') [''totalNumberOfDevices''] = Body []
   \<and> GetSensorCount
       (\<lambda>u ns. if u = ''http://roth/cgi-bin/ILRReadValues.cgi'' \<and> ns = [''totalNumberOfDevices'']
                then Body [] else BadXML) ''http://roth''
     = Failed ''no values returned''"
  using GetSensorCount_outcome
    [of "\<lambda>u ns. if u = ''http://roth/cgi-bin/ILRReadValues.cgi'' \<and> ns = [''totalNumberOfDevices'']
                 then Body [] else BadXML" "''http://roth''" "[]"]
  by simp

subsection \<open>The decoding loop\<close>

lemma ParseInt8_le: "fst (ParseInt s 8) \<le> 127"
proof (cases "decimal_int s")
  case None
  then show ?thesis using ParseInt_not_decimal [of s 8] by auto
next
  case (Some v)
  then show ?thesis using ParseInt_decimal [of s v 8] by auto
qed

lemma decode_item_Return:
  assumes "decode_item (sensors, out) item = Return (sensors', out')"
  shows "sensors' = sensors \<or>
         (\<exists>idx valueName sensor. sensorInfoParser (ItemName item) = Some (idx, valueName) \<and>
            0 \<le> fst (ParseInt idx 8) \<and> fst (ParseInt idx 8) < int (length sensors) \<and>
            sensors' = sensors[nat (fst (ParseInt idx 8)) := sensor])"
  using assms
  by (auto simp: decode_item_def Let_def split_beta split: option.splits if_splits)

lemma decode_item_length:
  assumes "decode_item (sensors, out) item = Return (sensors', out')"
  shows "length sensors' = length sensors"
  using decode_item_Return [OF assms] by auto

lemma decode_item_above_127:
  assumes "decode_item (sensors, out) item = Return (sensors', out')" and "127 < j"
  shows "sensors' ! j = sensors ! j"
proof -
  from decode_item_Return [OF assms(1)] show ?thesis
  proof
    assume "sensors' = sensors"
    then show ?thesis by simp
  next
    assume "\<exists>idx valueName sensor. sensorInfoParser (ItemName item) = Some (idx, valueName) \<and>
            0 \<le> fst (ParseInt idx 8) \<and> fst (ParseInt idx 8) < int (length sensors) \<and>
            sensors' = sensors[nat (fst (ParseInt idx 8)) := sensor]"
    then obtain idx sensor where
      s': "sensors' = sensors[nat (fst (ParseInt idx 8)) := sensor]" by blast
    have "nat (fst (ParseInt idx 8)) \<le> 127" using ParseInt8_le [of idx] by simp
    with assms(2) have "nat (fst (ParseInt idx 8)) \<noteq> j" by simp
    with s' show ?thesis by simp
  qed
qed

lemma decode_loop_above_127:
  assumes "decode_loop (sensors, out) items = Return (sensors', out')"
  shows "length sensors' = length sensors \<and> (\<forall>j. 127 < j \<longrightarrow> sensors' ! j = sensors ! j)"
  using assms
proof (induction items arbitrary: sensors out)
  case Nil
  then show ?case by simp
next
  case (Cons item items)
  from Cons.prems obtain s1 o1 where
    step: "decode_item (sensors, out) item = Return (s1, o1)" and
    rest: "decode_loop (s1, o1) items = Return (sensors', out')"
    by (auto split: result.splits)
  from Cons.IH [OF rest] decode_item_length [OF step] decode_item_above_127 [OF step]
  show ?case by simp
qed

text \<open>
  C9. The count and the sensor indices are parsed with a signed 8-bit bound. When the
  first value of the count response is a decimal integer above 127 or below -128,
  \<^verbatim>\<open>GetSensorCount\<close> returns an error, not that count. In \<^verbatim>\<open>GetSensors\<close> the digits
  of an index above 127 parse to 127 with a range error, and whatever the response holds,
  no sensor at a position above 127 is touched: it still is the zero value on return.
\<close>

theorem eight_bit_bound:
  "(srv (managementURL @ ''/cgi-bin/ILRReadValues.cgi'') [''totalNumberOfDevices''] = Body items
      \<and> items \<noteq> [] \<and> decimal_int (Value (hd items)) = Some v \<and> (127 < v \<or> v < - 128)
     \<longrightarrow> GetSensorCount srv managementURL = Failed (''Unexpected value '' @ Value (hd items)))
   \<and> (ds \<noteq> [] \<and> list_all is_digit ds \<and> 127 < digits_val ds
     \<longrightarrow> ParseInt ds 8 = (127, Some ErrRange))
   \<and> (decode_response sensorCount resp = Return (sensors, out) \<and> 127 < j \<and> int j < sensorCount
     \<longrightarrow> length sensors = nat sensorCount \<and> sensors ! j = zero_Sensor)"
proof -
  have count: "GetSensorCount srv managementURL = Failed (''Unexpected value '' @ Value (hd items))"
    if a: "srv (managementURL @ ''/cgi-bin/ILRReadValues.cgi'') [''totalNumberOfDevices''] = Body items
      \<and> items \<noteq> [] \<and> decimal_int (Value (hd items)) = Some v \<and> (127 < v \<or> v < - 128)"
  proof -
    from a have b: "srv (managementURL @ ''/cgi-bin/ILRReadValues.cgi'') [''totalNumberOfDevices''] = Body items"
      by simp
    have "ParseInt (Value (hd items)) 8 =
             (if - 128 \<le> v \<and> v < 128 then (v, None)
              else if v < 0 then (- 128, Some ErrRange)
              else (127, Some ErrRange))"
      using a ParseInt_decimal [of "Value (hd items)" v 8] by simp
    with a have "snd (ParseInt (Value (hd items)) 8) \<noteq> None" by auto
    with a show ?thesis
      using GetSensorCount_Body [of srv managementURL items, OF b] by simp
  qed
  have index: "ParseInt ds 8 = (127, Some ErrRange)"
    if a: "ds \<noteq> [] \<and> list_all is_digit ds \<and> 127 < digits_val ds"
  proof -
    from a obtain c cs where ds: "ds = c # cs" by (cases ds) auto
    with a have "is_digit c" by simp
    then have "c \<noteq> CHR ''+''" "c \<noteq> CHR ''-''" by (auto simp: is_digit_def)
    with a ds have "decimal_int ds = Some (int (digits_val ds))"
      by (simp add: decimal_int_def)
    from ParseInt_decimal [OF this, of 8] a show ?thesis by simp
  qed
  have untouched: "length sensors = nat sensorCount \<and> sensors ! j = zero_Sensor"
    if a: "decode_response sensorCount resp = Return (sensors, out) \<and> 127 < j \<and> int j < sensorCount"
  proof -
    from a have n: "0 \<le> sensorCount" by simp
    with a have "decode_loop (replicate (nat sensorCount) zero_Sensor, []) resp = Return (sensors, out)"
      by (simp add: decode_response_def make_slice_def and_then_def)
    from decode_loop_above_127 [OF this]
    have l: "length sensors = nat sensorCount"
      and z: "sensors ! j = replicate (nat sensorCount) zero_Sensor ! j"
      using a by simp_all
    have "j < nat sensorCount" using a by linarith
    with l z show ?thesis by simp
  qed
  from count index untouched show ?thesis by blast
qed

lemmas parse_eval =
  ParseInt_def ParseUint_def is_digit_def digit_val_def uint64_cutoff_def

theorem eight_bit_bound_witness:
  "GetSensorCount (\<lambda>u ns. Body [\<lparr>ItemName = ''totalNumberOfDevices'', Value = ''200''\<rparr>]) ''http://roth''
     = Failed ''Unexpected value 200''
   \<and> decimal_int ''200'' = Some 200
   \<and> ParseInt ''200'' 8 = (127, Some ErrRange)
   \<and> decode_response 129 [\<lparr>ItemName = ''G200.name'', Value = ''x''\<rparr>]
       = Return ((replicate 129 zero_Sensor)[127 := zero_Sensor\<lparr>Id := 127, Name := ''x''\<rparr>],
                 [''Error parsing sensor index 200''])
   \<and> ((replicate 129 zero_Sensor)[127 := zero_Sensor\<lparr>Id := 127, Name := ''x''\<rparr>]) ! 128 = zero_Sensor"
proof -
  have d: "decimal_int ''200'' = Some 200"
    by (simp add: decimal_int_def is_digit_def digits_val_def digit_val_def)
  have v: "digits_val ''200'' = 200"
    by (simp add: digits_val_def digit_val_def)
  have g: "list_all is_digit ''200''"
    by (simp add: is_digit_def)
  have p1: "sensorInfoParser ''G200.name'' = Some (''200'', ''name'')"
    by (simp add: sensorInfoParser_def is_digit_def)
  have p2: "ParseInt ''200'' 8 = (127, Some ErrRange)"
    by (simp add: parse_eval)
  have p3: "ParseInt ''x'' 16 = (0, Some ErrSyntax)"
    by (simp add: parse_eval)
  have r: "decode_response 129 [\<lparr>ItemName = ''G200.name'', Value = ''x''\<rparr>]
       = Return ((replicate 129 zero_Sensor)[127 := zero_Sensor\<lparr>Id := 127, Name := ''x''\<rparr>],
                 [''Error parsing sensor index 200''])"
    by (simp add: decode_response_def make_slice_def and_then_def decode_item_def
        assign_field_def p1 p2 p3)
  show ?thesis
    using d v g r
      eight_bit_bound [where srv = "\<lambda>u ns. Body [\<lparr>ItemName = ''totalNumberOfDevices'', Value = ''200''\<rparr>]"
        and managementURL = "''http://roth''"
        and items = "[\<lparr>ItemName = ''totalNumberOfDevices'', Value = ''200''\<rparr>]"
        and v = 200 and ds = "''200''" and sensorCount = 129
        and resp = "[\<lparr>ItemName = ''G200.name'', Value = ''x''\<rparr>]"
        and sensors = "(replicate 129 zero_Sensor)[127 := zero_Sensor\<lparr>Id := 127, Name := ''x''\<rparr>]"
        and out = "[''Error parsing sensor index 200'']" and j = 128]
    by simp
qed

subsection \<open>Printing and reading decimal digits\<close>


lemma digit_val_digit_char: "d < 10 \<Longrightarrow> digit_val (digit_char d) = d"
  by (simp add: digit_val_def digit_char_def)



lemma digits_val_snoc: "digits_val (ds @ [c]) = digits_val ds * 10 + digit_val c"
  by (simp add: digits_val_def)

lemma digits_val_digits_of: "digits_val (digits_of n) = n"
proof (induction n rule: digits_of.induct)
  case (1 n)
  show ?case
  proof (cases "n < 10")
    case True
    then show ?thesis
      by (subst digits_of.simps) (simp add: digits_val_def digit_val_digit_char)
  next
    case False
    with "1" have "digits_val (digits_of (n div 10)) = n div 10" by simp
    then show ?thesis using False
      by (subst digits_of.simps) (simp add: digits_val_snoc digit_val_digit_char)
  qed
qed




subsection \<open>The request loop\<close>

lemma take_update5:
  assumes "m + 5 \<le> length xs"
  shows "take (m + 5) (xs[m := a, m + 1 := b, m + 2 := c, m + 3 := d, m + 4 := e])
           = take m xs @ [a, b, c, d, e]"
proof (rule nth_equalityI)
  show "length (take (m + 5) (xs[m := a, m + 1 := b, m + 2 := c, m + 3 := d, m + 4 := e]))
          = length (take m xs @ [a, b, c, d, e])"
    using assms by simp
next
  fix j
  assume "j < length (take (m + 5) (xs[m := a, m + 1 := b, m + 2 := c, m + 3 := d, m + 4 := e]))"
  then have j: "j < m + 5" by simp
  consider "j < m" | "j = m" | "j = m + 1" | "j = m + 2" | "j = m + 3" | "j = m + 4"
    using j by linarith
  then show "take (m + 5) (xs[m := a, m + 1 := b, m + 2 := c, m + 3 := d, m + 4 := e]) ! j
               = (take m xs @ [a, b, c, d, e]) ! j"
    using assms by cases (simp_all add: nth_append)
qed

lemma request_body_Return:
  assumes "0 \<le> i" and "nat i * 5 + 4 < length items"
  shows "request_body items i =
           Return (items[nat i * 5 := \<lparr>ReqName = Sprintf_G i ''RaumTemp''\<rparr>,
                         nat i * 5 + 1 := \<lparr>ReqName = Sprintf_G i ''SollTemp''\<rparr>,
                         nat i * 5 + 2 := \<lparr>ReqName = Sprintf_G i ''name''\<rparr>,
                         nat i * 5 + 3 := \<lparr>ReqName = Sprintf_G i ''WeekProg''\<rparr>,
                         nat i * 5 + 4 := \<lparr>ReqName = Sprintf_G i ''OPmode''\<rparr>])"
proof -
  have n: "nat (i * 5) = nat i * 5" "nat (i * 5 + 1) = nat i * 5 + 1"
    "nat (i * 5 + 2) = nat i * 5 + 2" "nat (i * 5 + 3) = nat i * 5 + 3"
    "nat (i * 5 + 4) = nat i * 5 + 4"
    using assms(1) by (simp_all add: nat_add_distrib nat_mult_distrib)
  have b: "i * 5 + 4 < int (length items)" using assms by linarith
  show ?thesis
    using assms(1) b by (simp add: request_body_def set_Name_def and_then_def n)
qed

lemma request_loop_names:
  assumes "0 \<le> i" and "i \<le> n" and "length items = nat n * 5"
  shows "request_loop i n items =
           Return (take (nat i * 5) items @
                   map (\<lambda>v. \<lparr>ReqName = v\<rparr>)
                     (concat (map (\<lambda>k. request_names (int k)) [nat i..<nat n])))"
  using assms
proof (induction i n items rule: request_loop.induct)
  case (1 i n items)
  show ?case
  proof (cases "i < n")
    case False
    with "1.prems" have "i = n" by simp
    with "1.prems" show ?thesis by (subst request_loop.simps) simp
  next
    case True
    let ?items' = "items[nat i * 5 := \<lparr>ReqName = Sprintf_G i ''RaumTemp''\<rparr>,
                         nat i * 5 + 1 := \<lparr>ReqName = Sprintf_G i ''SollTemp''\<rparr>,
                         nat i * 5 + 2 := \<lparr>ReqName = Sprintf_G i ''name''\<rparr>,
                         nat i * 5 + 3 := \<lparr>ReqName = Sprintf_G i ''WeekProg''\<rparr>,
                         nat i * 5 + 4 := \<lparr>ReqName = Sprintf_G i ''OPmode''\<rparr>]"
    have lt: "nat i < nat n" using True "1.prems"(1) by simp
    have "Suc (nat i) \<le> nat n" using True "1.prems"(1) by linarith
    then have "Suc (nat i) * 5 \<le> nat n * 5" by (rule mult_le_mono1)
    then have room: "nat i * 5 + 5 \<le> length items" using "1.prems"(3) by simp
    then have body: "request_body items i = Return ?items'"
      using "1.prems"(1) by (intro request_body_Return) simp_all
    have len: "length ?items' = nat n * 5" using "1.prems"(3) by simp
    have "request_loop (i + 1) n ?items' =
            Return (take (nat (i + 1) * 5) ?items' @
                    map (\<lambda>v. \<lparr>ReqName = v\<rparr>)
                      (concat (map (\<lambda>k. request_names (int k)) [nat (i + 1)..<nat n])))"
      using True body "1.prems"(1) len by (intro "1.IH") simp_all
    moreover have "nat (i + 1) = nat i + 1" using "1.prems"(1) by simp
    moreover have "take (nat i * 5 + 5) ?items' =
        take (nat i * 5) items @ map (\<lambda>v. \<lparr>ReqName = v\<rparr>) (request_names i)"
    proof -
      have "take (nat i * 5 + 5) ?items' =
        take (nat i * 5) items @
          [\<lparr>ReqName = Sprintf_G i ''RaumTemp''\<rparr>, \<lparr>ReqName = Sprintf_G i ''SollTemp''\<rparr>,
           \<lparr>ReqName = Sprintf_G i ''name''\<rparr>, \<lparr>ReqName = Sprintf_G i ''WeekProg''\<rparr>,
           \<lparr>ReqName = Sprintf_G i ''OPmode''\<rparr>]"
        using room by (rule take_update5)
      also have "\<dots> = take (nat i * 5) items @ map (\<lambda>v. \<lparr>ReqName = v\<rparr>) (request_names i)"
        by (simp add: request_names_def field_names_def Sprintf_G_def)
      finally show ?thesis .
    qed
    moreover have "[nat i..<nat n] = nat i # [nat i + 1..<nat n]"
      using lt by (simp add: upt_conv_Cons)
    moreover have "int (nat i) = i" using "1.prems"(1) by simp
    ultimately have "request_loop (i + 1) n ?items' =
            Return (take (nat i * 5) items @
                   map (\<lambda>v. \<lparr>ReqName = v\<rparr>)
                     (concat (map (\<lambda>k. request_names (int k)) [nat i..<nat n])))"
      by (simp add: algebra_simps)
    then show ?thesis using True body by (subst request_loop.simps) simp
  qed
qed

lemma int64_id: "0 \<le> x \<Longrightarrow> x < 2 ^ 63 \<Longrightarrow> int64 x = x"
  by (simp add: int64_def)

lemma build_request_Return:
  assumes "0 \<le> sensorCount" and "sensorCount * 5 < 2 ^ 63"
  shows "build_request sensorCount =
           Return (map (\<lambda>v. \<lparr>ReqName = v\<rparr>)
                     (concat (map (\<lambda>k. request_names (int k)) [0..<nat sensorCount])))"
proof -
  have "int64 (sensorCount * 5) = sensorCount * 5"
    using assms by (intro int64_id) simp_all
  moreover have "nat (sensorCount * 5) = nat sensorCount * 5"
    using assms(1) by (simp add: nat_mult_distrib)
  moreover have "request_loop 0 sensorCount (replicate (nat sensorCount * 5) \<lparr>ReqName = []\<rparr>) =
           Return (take (nat 0 * 5) (replicate (nat sensorCount * 5) \<lparr>ReqName = []\<rparr>) @
                   map (\<lambda>v. \<lparr>ReqName = v\<rparr>)
                     (concat (map (\<lambda>k. request_names (int k)) [nat 0..<nat sensorCount])))"
    using assms(1) by (intro request_loop_names) simp_all
  ultimately show ?thesis
    using assms(1) by (simp add: build_request_def make_slice_def and_then_def)
qed





subsection \<open>Items that match the pattern\<close>

lemma sensorInfoParser_match:
  assumes "idx \<noteq> []" and "list_all is_digit idx"
    and "valueName \<noteq> []" and "CHR 0x0A \<notin> set valueName"
  shows "sensorInfoParser (''G'' @ idx @ ''.'' @ valueName) = Some (idx, valueName)"
proof -
  have nd: "\<not> is_digit CHR ''.''" by (simp add: is_digit_def)
  have all: "\<forall>c \<in> set idx. is_digit c"
    using assms(2) by (simp add: list_all_iff)
  have tw: "takeWhile is_digit (idx @ CHR ''.'' # valueName) = idx"
    using all nd by (simp add: takeWhile_append2 takeWhile_tail)
  have dw: "dropWhile is_digit (idx @ CHR ''.'' # valueName) = CHR ''.'' # valueName"
    using all nd by (simp add: dropWhile_append2)
  show ?thesis
    using assms tw dw by (simp add: sensorInfoParser_def)
qed

lemma sensorInfoParser_Some:
  assumes "sensorInfoParser s = Some (idx, valueName)"
  shows "s = ''G'' @ idx @ ''.'' @ valueName \<and> idx \<noteq> [] \<and> list_all is_digit idx
           \<and> valueName \<noteq> [] \<and> CHR 0x0A \<notin> set valueName"
proof -
  from assms obtain rest where s: "s = CHR ''G'' # rest"
    by (cases s) (auto simp: sensorInfoParser_def split: if_splits)
  from assms s have idx: "idx = takeWhile is_digit rest" and ne: "idx \<noteq> []"
    and dw: "dropWhile is_digit rest = CHR ''.'' # valueName"
    and v: "valueName \<noteq> []" "CHR 0x0A \<notin> set valueName"
    by (auto simp: sensorInfoParser_def Let_def split: if_splits list.splits)
  have "rest = takeWhile is_digit rest @ dropWhile is_digit rest" by simp
  with idx dw have "rest = idx @ CHR ''.'' # valueName" by simp
  moreover have "list_all is_digit idx"
    unfolding idx list_all_iff by (auto dest: set_takeWhileD)
  ultimately show ?thesis using s ne v by simp
qed

lemma ParseInt8_digits:
  assumes "idx \<noteq> []" and "list_all is_digit idx"
  shows "ParseInt idx 8 =
           (if digits_val idx \<le> 127 then (int (digits_val idx), None)
            else (127, Some ErrRange))"
proof -
  from assms obtain c cs where ds: "idx = c # cs" by (cases idx) auto
  with assms have "is_digit c" by simp
  then have "c \<noteq> CHR ''+''" "c \<noteq> CHR ''-''" by (auto simp: is_digit_def)
  with assms ds have "decimal_int idx = Some (int (digits_val idx))"
    by (simp add: decimal_int_def)
  from ParseInt_decimal [OF this, of 8] show ?thesis by auto
qed

lemma decode_item_no_match:
  assumes "sensorInfoParser (ItemName item) = None"
  shows "decode_item (sensors, out) item =
           Return (sensors, out @ [''error parsing sensor info name: '' @ ItemName item])"
  using assms by (simp add: decode_item_def)

lemma decode_item_indexed:
  assumes "sensorInfoParser (ItemName item) = Some (idx, valueName)"
    and "digits_val idx \<le> 127" and "digits_val idx < length sensors"
  shows "decode_item (sensors, out) item =
           Return (sensors[digits_val idx :=
                     fst (assign_field (int (digits_val idx)) valueName (Value item)
                            (sensors ! digits_val idx))],
                   out @ snd (assign_field (int (digits_val idx)) valueName (Value item)
                                (sensors ! digits_val idx)))"
proof -
  from sensorInfoParser_Some [OF assms(1)]
  have "idx \<noteq> []" and "list_all is_digit idx" by simp_all
  then have "ParseInt idx 8 = (int (digits_val idx), None)"
    using assms(2) by (simp add: ParseInt8_digits)
  then show ?thesis
    using assms(1,3) by (simp add: decode_item_def split_beta)
qed

lemma decode_item_beyond:
  assumes "sensorInfoParser (ItemName item) = Some (idx, valueName)"
    and "digits_val idx \<le> 127" and "length sensors \<le> digits_val idx"
  shows "decode_item (sensors, out) item =
           Panicked (IndexOutOfRange (int (digits_val idx)) (int (length sensors)))"
proof -
  from sensorInfoParser_Some [OF assms(1)]
  have "idx \<noteq> []" and "list_all is_digit idx" by simp_all
  then have "ParseInt idx 8 = (int (digits_val idx), None)"
    using assms(2) by (simp add: ParseInt8_digits)
  then show ?thesis
    using assms(1,3) by (simp add: decode_item_def split_beta)
qed

subsection \<open>Indices that do not address a sensor\<close>

lemma build_request_1:
  "build_request 1 =
     Return [\<lparr>ReqName = ''G0.RaumTemp''\<rparr>, \<lparr>ReqName = ''G0.SollTemp''\<rparr>,
             \<lparr>ReqName = ''G0.name''\<rparr>, \<lparr>ReqName = ''G0.WeekProg''\<rparr>,
             \<lparr>ReqName = ''G0.OPmode''\<rparr>]"
proof -
  have i: "Itoa 0 = ''0''" by code_simp
  show ?thesis
    using build_request_Return [of 1] by (simp add: request_names_def field_names_def i)
qed

lemmas decode_eval =
  decode_response_def make_slice_def and_then_def decode_item_def assign_field_def
  sensorInfoParser_def readValues_def

text \<open>
  C1. An item whose index is the sensor count or more is to be skipped, with the other
  sensors returned. Here the controller answers a request for one sensor with an item
  of index 1: the code indexes the slice of length 1 at 1 and panics, and nothing is
  returned.
\<close>

theorem GetSensors_index_equal_count:
  "GetSensors
     (\<lambda>u ns. Body [\<lparr>ItemName = ''G0.RaumTemp'', Value = ''2086''\<rparr>,
                    \<lparr>ItemName = ''G1.RaumTemp'', Value = ''1903''\<rparr>])
     ''http://roth'' 1
   = Panicked (IndexOutOfRange 1 1)"
  by (simp add: GetSensors_def build_request_1 decode_eval parse_eval)

text \<open>
  C2. An item whose index fails to parse is to be skipped without a change to any
  sensor. An index that does not fit 8 bits fails to parse; the code prints the error
  and goes on with the value 127 the parser returned: with fewer than 128 sensors the
  iteration panics, with 128 sensors the item is decoded into sensor 127.
\<close>

theorem GetSensors_unparsed_index_used:
  "GetSensors
     (\<lambda>u ns. Body [\<lparr>ItemName = ''G0.RaumTemp'', Value = ''2086''\<rparr>,
                    \<lparr>ItemName = ''G128.RaumTemp'', Value = ''1903''\<rparr>])
     ''http://roth'' 1
   = Panicked (IndexOutOfRange 127 1)
   \<and> decode_response 128 [\<lparr>ItemName = ''G200.name'', Value = ''x''\<rparr>]
     = Return ((replicate 128 zero_Sensor)[127 := zero_Sensor\<lparr>Id := 127, Name := ''x''\<rparr>],
               [''Error parsing sensor index 200''])"
proof -
  have a: "GetSensors
     (\<lambda>u ns. Body [\<lparr>ItemName = ''G0.RaumTemp'', Value = ''2086''\<rparr>,
                    \<lparr>ItemName = ''G128.RaumTemp'', Value = ''1903''\<rparr>])
     ''http://roth'' 1
   = Panicked (IndexOutOfRange 127 1)"
    by (simp add: GetSensors_def build_request_1 decode_eval parse_eval)
  have p1: "sensorInfoParser ''G200.name'' = Some (''200'', ''name'')"
    by (simp add: sensorInfoParser_def is_digit_def)
  have p2: "ParseInt ''200'' 8 = (127, Some ErrRange)"
    by (simp add: parse_eval)
  have p3: "ParseInt ''x'' 16 = (0, Some ErrSyntax)"
    by (simp add: parse_eval)
  have b: "decode_response 128 [\<lparr>ItemName = ''G200.name'', Value = ''x''\<rparr>]
     = Return ((replicate 128 zero_Sensor)[127 := zero_Sensor\<lparr>Id := 127, Name := ''x''\<rparr>],
               [''Error parsing sensor index 200''])"
    by (simp add: decode_response_def make_slice_def and_then_def decode_item_def
        assign_field_def p1 p2 p3)
  from a b show ?thesis by simp
qed

subsection \<open>Unrecognised fields\<close>

lemma assign_field_unknown:
  assumes "valueName \<notin> set field_names"
  shows "assign_field i valueName value sensor =
           (sensor\<lparr>Id := i\<rparr>, [''Unexpected value name '' @ valueName])"
  using assms by (auto simp: assign_field_def field_names_def split_beta Let_def)

text \<open>
  C7. An item \<open>G<i>.<field>\<close> whose field is none of the five names, and whose index
  \<open>i\<close> addresses a sensor, does not make the decoding fail and changes none of the
  five data fields: the message "Unexpected value name" is printed, the \<open>Id\<close> of sensor
  \<open>i\<close> is set to \<open>i\<close> (a sensor whose \<open>Id\<close> already is \<open>i\<close> stays as it is), and the loop
  goes on with the items that follow.
\<close>

theorem unknown_field_ignored:
  assumes "ItemName item = ''G'' @ idx @ ''.'' @ valueName"
    and "idx \<noteq> []" and "list_all is_digit idx"
    and "valueName \<noteq> []" and "CHR 0x0A \<notin> set valueName"
    and "valueName \<notin> set field_names"
    and "digits_val idx \<le> 127" and "digits_val idx < length sensors"
  shows "decode_item (sensors, out) item =
           Return (sensors[digits_val idx := (sensors ! digits_val idx)\<lparr>Id := int (digits_val idx)\<rparr>],
                   out @ [''Unexpected value name '' @ valueName])
         \<and> decode_loop (sensors, out) (item # items) =
             decode_loop
               (sensors[digits_val idx := (sensors ! digits_val idx)\<lparr>Id := int (digits_val idx)\<rparr>],
                out @ [''Unexpected value name '' @ valueName]) items
         \<and> (Id (sensors ! digits_val idx) = int (digits_val idx) \<longrightarrow>
              sensors[digits_val idx := (sensors ! digits_val idx)\<lparr>Id := int (digits_val idx)\<rparr>]
                = sensors)"
proof -
  have "sensorInfoParser (ItemName item) = Some (idx, valueName)"
    unfolding assms(1) using assms(2-5) by (rule sensorInfoParser_match)
  from decode_item_indexed [OF this assms(7,8)]
  have step: "decode_item (sensors, out) item =
           Return (sensors[digits_val idx := (sensors ! digits_val idx)\<lparr>Id := int (digits_val idx)\<rparr>],
                   out @ [''Unexpected value name '' @ valueName])"
    by (simp add: assign_field_unknown [OF assms(6)])
  have same: "sensors[digits_val idx := (sensors ! digits_val idx)\<lparr>Id := int (digits_val idx)\<rparr>]
                = sensors"
    if "Id (sensors ! digits_val idx) = int (digits_val idx)"
  proof -
    have "(sensors ! digits_val idx)\<lparr>Id := int (digits_val idx)\<rparr> = sensors ! digits_val idx"
      using that by simp
    then show ?thesis by simp
  qed
  from step same show ?thesis by simp
qed

theorem unknown_field_ignored_witness:
  "decode_loop ([zero_Sensor], [])
     [\<lparr>ItemName = ''G0.Foo'', Value = ''1''\<rparr>, \<lparr>ItemName = ''G0.name'', Value = ''Kitchen''\<rparr>]
   = Return ([zero_Sensor\<lparr>Name := ''Kitchen''\<rparr>], [''Unexpected value name Foo''])"
proof -
  have h: "list_all is_digit ''0''" "digits_val ''0'' = 0" "''Foo'' \<notin> set field_names"
    by (simp_all add: is_digit_def digits_val_def digit_val_def field_names_def)
  have z: "zero_Sensor\<lparr>Id := 0\<rparr> = zero_Sensor" by (simp add: zero_Sensor_def)
  have n: "decode_item ([zero_Sensor], [''Unexpected value name Foo''])
             \<lparr>ItemName = ''G0.name'', Value = ''Kitchen''\<rparr>
           = Return ([zero_Sensor\<lparr>Name := ''Kitchen''\<rparr>], [''Unexpected value name Foo''])"
    by (simp add: decode_item_def assign_field_def sensorInfoParser_def parse_eval z)
  show ?thesis
    using unknown_field_ignored [of "\<lparr>ItemName = ''G0.Foo'', Value = ''1''\<rparr>" "''0''" "''Foo''"
        "[zero_Sensor]" "[]" "[\<lparr>ItemName = ''G0.name'', Value = ''Kitchen''\<rparr>]"] h z n
    by simp
qed

text \<open>
  The item is not without effect: it sets the \<open>Id\<close> of a sensor that no other item
  touches.
\<close>

theorem unknown_field_sets_Id:
  "decode_response 2 [\<lparr>ItemName = ''G1.Foo'', Value = ''1''\<rparr>]
     = Return ([zero_Sensor, zero_Sensor\<lparr>Id := 1\<rparr>], [''Unexpected value name Foo''])
   \<and> decode_response 2 [] = Return ([zero_Sensor, zero_Sensor], [])
   \<and> zero_Sensor\<lparr>Id := 1\<rparr> \<noteq> zero_Sensor"
proof -
  have r: "replicate 2 zero_Sensor = [zero_Sensor, zero_Sensor]"
    by (simp add: numeral_2_eq_2)
  have a: "decode_response 2 [\<lparr>ItemName = ''G1.Foo'', Value = ''1''\<rparr>]
     = Return ([zero_Sensor, zero_Sensor\<lparr>Id := 1\<rparr>], [''Unexpected value name Foo''])"
    unfolding decode_response_def make_slice_def and_then_def
    by (simp add: r decode_item_def assign_field_def sensorInfoParser_def parse_eval)
  have b: "decode_response 2 [] = Return ([zero_Sensor, zero_Sensor], [])"
    unfolding decode_response_def make_slice_def and_then_def by (simp add: r)
  have c: "zero_Sensor\<lparr>Id := 1\<rparr> \<noteq> zero_Sensor"
    by (simp add: zero_Sensor_def)
  from a b c show ?thesis by simp
qed

subsection \<open>Values that do not parse\<close>

lemma ParseInt16_error:
  assumes "ParseInt s 16 = (n, Some e)"
  shows "(e = ErrSyntax \<longrightarrow> n = 0) \<and> (e = ErrRange \<longrightarrow> n = 32767 \<or> n = - 32768)
         \<and> (\<forall>v. decimal_int s = Some v \<longrightarrow>
               e = ErrRange \<and> n = (if v < 0 then - 32768 else 32767))"
proof (cases "decimal_int s")
  case None
  from ParseInt_not_decimal [OF None, of 16] assms show ?thesis
    using None by auto
next
  case (Some v)
  from ParseInt_decimal [OF Some, of 16] assms show ?thesis
    using Some by (auto split: if_splits)
qed

text \<open>
  C10. An item \<open>G<i>.RaumTemp\<close>, \<open>G<i>.SollTemp\<close>, \<open>G<i>.WeekProg\<close> or \<open>G<i>.OPmode\<close> that
  addresses a sensor and whose value the 16-bit parse rejects is neither skipped nor
  fatal: the field is assigned. A temperature becomes 0. Program and mode become the
  number the parser returned with its error: 0 after a syntax error, and after a range
  error the bound 32767 or -32768 (for a value that is a decimal integer, the bound on
  its side of zero).
\<close>

theorem unparsable_value_assigned:
  assumes "ItemName item = ''G'' @ idx @ ''.'' @ valueName"
    and "idx \<noteq> []" and "list_all is_digit idx"
    and "valueName \<in> {''RaumTemp'', ''SollTemp'', ''WeekProg'', ''OPmode''}"
    and "digits_val idx \<le> 127" and "digits_val idx < length sensors"
    and "ParseInt (Value item) 16 = (n, Some e)"
  shows "decode_item (sensors, out) item =
           Return (sensors[digits_val idx :=
                     (if valueName = ''RaumTemp''
                        then (sensors ! digits_val idx)
                               \<lparr>Id := int (digits_val idx), RoomTemperature := Finite False 0\<rparr>
                      else if valueName = ''SollTemp''
                        then (sensors ! digits_val idx)
                               \<lparr>Id := int (digits_val idx), TargetTemperature := Finite False 0\<rparr>
                      else if valueName = ''WeekProg''
                        then (sensors ! digits_val idx)
                               \<lparr>Id := int (digits_val idx), Program := n\<rparr>
                      else (sensors ! digits_val idx)
                               \<lparr>Id := int (digits_val idx), Mode := n\<rparr>)],
                   out)
         \<and> (e = ErrSyntax \<longrightarrow> n = 0)
         \<and> (e = ErrRange \<longrightarrow> n = 32767 \<or> n = - 32768)
         \<and> (\<forall>v. decimal_int (Value item) = Some v \<longrightarrow>
               e = ErrRange \<and> n = (if v < 0 then - 32768 else 32767))"
proof -
  have v: "valueName \<noteq> []" "CHR 0x0A \<notin> set valueName"
    using assms(4) by auto
  have "sensorInfoParser (ItemName item) = Some (idx, valueName)"
    unfolding assms(1) using assms(2,3) v by (rule sensorInfoParser_match)
  from decode_item_indexed [OF this assms(5,6)] assms(4,7)
  have "decode_item (sensors, out) item =
           Return (sensors[digits_val idx :=
                     (if valueName = ''RaumTemp''
                        then (sensors ! digits_val idx)
                               \<lparr>Id := int (digits_val idx), RoomTemperature := Finite False 0\<rparr>
                      else if valueName = ''SollTemp''
                        then (sensors ! digits_val idx)
                               \<lparr>Id := int (digits_val idx), TargetTemperature := Finite False 0\<rparr>
                      else if valueName = ''WeekProg''
                        then (sensors ! digits_val idx)
                               \<lparr>Id := int (digits_val idx), Program := n\<rparr>
                      else (sensors ! digits_val idx)
                               \<lparr>Id := int (digits_val idx), Mode := n\<rparr>)],
                   out)"
    by (elim insertE emptyE) (simp_all add: assign_field_def)
  with ParseInt16_error [OF assms(7)] show ?thesis by blast
qed


theorem unparsable_value_assigned_witness:
  "ParseInt ''abc'' 16 = (0, Some ErrSyntax)
   \<and> decode_item ([zero_Sensor\<lparr>RoomTemperature := Finite False 21\<rparr>], [])
       \<lparr>ItemName = ''G0.RaumTemp'', Value = ''abc''\<rparr>
     = Return ([zero_Sensor], [])"
proof -
  have h: "list_all is_digit ''0''" "digits_val ''0'' = 0"
    by (simp_all add: is_digit_def digits_val_def digit_val_def)
  have p: "ParseInt ''abc'' 16 = (0, Some ErrSyntax)"
    by (simp add: parse_eval)
  have z: "zero_Sensor\<lparr>RoomTemperature := Finite False 21, Id := 0, RoomTemperature := Finite False 0\<rparr>
             = zero_Sensor"
    by (simp add: zero_Sensor_def)
  show ?thesis
    using unparsable_value_assigned [of "\<lparr>ItemName = ''G0.RaumTemp'', Value = ''abc''\<rparr>" "''0''"
        "''RaumTemp''" "[zero_Sensor\<lparr>RoomTemperature := Finite False 21\<rparr>]" 0 ErrSyntax "[]"] h p z
    by simp
qed




text \<open>
  The value 40000 is a number beyond 16 bits: the program written is 32767, not 0.
\<close>

theorem overflowing_program_clamped:
  "ParseInt ''40000'' 16 = (32767, Some ErrRange)
   \<and> decode_response 1 [\<lparr>ItemName = ''G0.WeekProg'', Value = ''40000''\<rparr>]
     = Return ([zero_Sensor\<lparr>Program := 32767\<rparr>], [])"
proof -
  have p: "ParseInt ''40000'' 16 = (32767, Some ErrRange)"
    by (simp add: parse_eval)
  have z: "zero_Sensor\<lparr>Id := 0, Program := 32767\<rparr> = zero_Sensor\<lparr>Program := 32767\<rparr>"
    by (simp add: zero_Sensor_def)
  have "decode_response 1 [\<lparr>ItemName = ''G0.WeekProg'', Value = ''40000''\<rparr>]
     = Return ([zero_Sensor\<lparr>Program := 32767\<rparr>], [])"
    unfolding decode_response_def make_slice_def and_then_def
    by (simp add: decode_item_def assign_field_def sensorInfoParser_def p z is_digit_def
        ParseInt8_digits digits_val_def digit_val_def)
  with p show ?thesis by simp
qed

subsection \<open>Writing values\<close>



subsection \<open>Rounding to \<^verbatim>\<open>float32\<close>\<close>

lemma round_half_even_nearest:
  "\<bar>of_int (round_half_even x) - x\<bar> \<le> 1 / 2
   \<and> (\<bar>of_int (round_half_even x) - x\<bar> = 1 / 2 \<longrightarrow> even (round_half_even x))"
proof -
  define d where "d = x - of_int \<lfloor>x\<rfloor>"
  have d0: "0 \<le> d" and d1: "d < 1"
    unfolding d_def by linarith+
  consider "d < 1 / 2" | "1 / 2 < d" | "d = 1 / 2" by linarith
  then show ?thesis
  proof cases
    case 1
    then have "round_half_even x = \<lfloor>x\<rfloor>"
      by (simp add: round_half_even_def d_def Let_def)
    then have "of_int (round_half_even x) - x = - d" by (simp add: d_def)
    then have "\<bar>of_int (round_half_even x) - x\<bar> = d" using d0 by simp
    with 1 show ?thesis by simp
  next
    case 2
    then have "round_half_even x = \<lfloor>x\<rfloor> + 1"
      by (simp add: round_half_even_def d_def Let_def)
    then have "of_int (round_half_even x) - x = 1 - d" by (simp add: d_def)
    then have "\<bar>of_int (round_half_even x) - x\<bar> = 1 - d" using d1 by simp
    with 2 show ?thesis by simp
  next
    case 3
    then have r: "round_half_even x = (if even \<lfloor>x\<rfloor> then \<lfloor>x\<rfloor> else \<lfloor>x\<rfloor> + 1)"
      by (simp add: round_half_even_def d_def Let_def)
    then have ev: "even (round_half_even x)" by simp
    have "\<bar>of_int (round_half_even x) - x\<bar> = 1 / 2"
    proof (cases "even \<lfloor>x\<rfloor>")
      case True
      with r have "of_int (round_half_even x) - x = - d" by (simp add: d_def)
      with 3 show ?thesis by simp
    next
      case False
      with r have "of_int (round_half_even x) - x = 1 - d" by (simp add: d_def)
      with 3 show ?thesis by simp
    qed
    with ev show ?thesis by simp
  qed
qed

lemma round_half_even_nonneg: "0 \<le> x \<Longrightarrow> 0 \<le> round_half_even x"
  by (auto simp: round_half_even_def Let_def)

lemma bits_Len_bounds:
  "0 < n \<Longrightarrow> 2 ^ (bits_Len n - 1) \<le> n \<and> n < 2 ^ bits_Len n"
proof (induction n rule: bits_Len.induct)
  case (1 n)
  show ?case
  proof (cases "n div 2 = 0")
    case True
    with "1.prems" have "n = 1" by (simp add: div_eq_0_iff)
    then show ?thesis by (simp add: bits_Len.simps)
  next
    case False
    then have pos: "0 < n div 2" by simp
    with "1.IH" "1.prems" have ih: "2 ^ (bits_Len (n div 2) - 1) \<le> n div 2"
      "n div 2 < 2 ^ bits_Len (n div 2)" by simp_all
    have len: "bits_Len n = Suc (bits_Len (n div 2))"
      using "1.prems" by (subst bits_Len.simps) simp
    have k: "0 < bits_Len (n div 2)"
      using pos by (subst bits_Len.simps) simp
    then have "(2::nat) ^ bits_Len (n div 2) = 2 * 2 ^ (bits_Len (n div 2) - 1)"
      by (cases "bits_Len (n div 2)") simp_all
    with ih(1) have lo: "2 ^ bits_Len (n div 2) \<le> n" by linarith
    from ih(2) have "n < 2 * 2 ^ bits_Len (n div 2)" by linarith
    with lo len show ?thesis by simp
  qed
qed

lemma pow2_pos: "0 < pow2 e"
  by (simp add: pow2_def)

lemma pow2_nat: "pow2 (int k) = 2 ^ k"
  by (simp add: pow2_def)

lemma pow2_neg_nat: "pow2 (- int k) = 1 / 2 ^ k"
proof (cases "k = 0")
  case True
  then show ?thesis by (simp add: pow2_def)
next
  case False
  then have "\<not> 0 \<le> - int k" by simp
  then show ?thesis by (simp add: pow2_def)
qed

lemma pow2_Suc: "pow2 (e + 1) = 2 * pow2 e"
proof (cases "0 \<le> e")
  case True
  then have "nat (e + 1) = Suc (nat e)" by simp
  with True show ?thesis by (simp add: pow2_def)
next
  case False
  then have "nat (- e) = Suc (nat (- (e + 1)))" by simp
  with False show ?thesis by (auto simp: pow2_def)
qed

lemma floor_log2_bounds:
  assumes "0 < x"
  shows "pow2 (floor_log2 x) \<le> x \<and> x < pow2 (floor_log2 x + 1)"
proof (cases "1 \<le> x")
  case True
  define m where "m = nat \<lfloor>x\<rfloor>"
  have m1: "0 < m" using True by (simp add: m_def)
  have mx: "of_nat m \<le> x" "x < of_nat m + 1"
    using True unfolding m_def by (simp_all, linarith)
  from bits_Len_bounds [OF m1]
  have b: "2 ^ (bits_Len m - 1) \<le> m" "m < 2 ^ bits_Len m" by simp_all
  have k: "0 < bits_Len m" using m1 by (subst bits_Len.simps) simp
  have e: "floor_log2 x = int (bits_Len m - 1)"
    using True k by (simp add: floor_log2_def m_def)
  have e1: "floor_log2 x + 1 = int (bits_Len m)"
    using e k by simp
  have "(2::rat) ^ (bits_Len m - 1) \<le> of_nat m"
    using b(1) by (metis of_nat_le_iff of_nat_numeral of_nat_power)
  with mx(1) have lo: "pow2 (floor_log2 x) \<le> x"
    unfolding e pow2_nat by linarith
  have "m + 1 \<le> 2 ^ bits_Len m" using b(2) by simp
  then have "(of_nat (m + 1) :: rat) \<le> of_nat (2 ^ bits_Len m)"
    by (simp only: of_nat_le_iff)
  then have "(of_nat m :: rat) + 1 \<le> 2 ^ bits_Len m" by simp
  with mx(2) have hi: "x < pow2 (floor_log2 x + 1)"
    unfolding e1 pow2_nat by linarith
  from lo hi show ?thesis by simp
next
  case False
  define y where "y = 1 / x"
  define c where "c = nat \<lceil>y\<rceil>"
  have y1: "1 < y" using False assms by (simp add: y_def)
  then have "2 \<le> \<lceil>y\<rceil>" by linarith
  then have c2: "2 \<le> c" unfolding c_def by linarith
  have cy: "y \<le> of_nat c" "of_nat c - 1 < y"
    using y1 unfolding c_def by (simp_all, linarith+)
  define k where "k = bits_Len (c - 1)"
  from bits_Len_bounds [of "c - 1"] c2
  have b: "2 ^ (k - 1) \<le> c - 1" "c - 1 < 2 ^ k" by (simp_all add: k_def)
  have k0: "0 < k" unfolding k_def using c2 by (subst bits_Len.simps) simp
  have e: "floor_log2 x = - int k"
    using False by (simp add: floor_log2_def k_def c_def y_def)
  have "c \<le> 2 ^ k" using b(2) by simp
  then have "(of_nat c :: rat) \<le> of_nat (2 ^ k)" by (simp only: of_nat_le_iff)
  then have "(of_nat c :: rat) \<le> 2 ^ k" by simp
  with cy(1) have "y \<le> 2 ^ k" by linarith
  then have "1 / x \<le> 2 ^ k" by (simp add: y_def)
  then have "1 \<le> 2 ^ k * x" using assms by (simp add: field_simps)
  then have lo: "pow2 (floor_log2 x) \<le> x"
    unfolding e pow2_neg_nat by (simp add: field_simps)
  have "(of_nat (2 ^ (k - 1)) :: rat) \<le> of_nat (c - 1)"
    using b(1) by (simp only: of_nat_le_iff)
  then have "(2::rat) ^ (k - 1) \<le> of_nat c - 1" using c2 by (simp add: of_nat_diff)
  with cy(2) have "2 ^ (k - 1) < y" by linarith
  then have "2 ^ (k - 1) < 1 / x" by (simp add: y_def)
  then have "2 ^ (k - 1) * x < 1" using assms by (simp add: field_simps)
  then have x: "x < 1 / 2 ^ (k - 1)" by (simp add: field_simps)
  have "floor_log2 x + 1 = - int (k - 1)" using e k0 by simp
  with x have hi: "x < pow2 (floor_log2 x + 1)"
    by (simp only: pow2_neg_nat)
  from lo hi show ?thesis by simp
qed

lemma pow2_add_nat: "pow2 (e + int k) = pow2 e * 2 ^ k"
proof (induction k)
  case 0
  show ?case by simp
next
  case (Suc k)
  have "e + int (Suc k) = (e + int k) + 1" by simp
  then have "pow2 (e + int (Suc k)) = pow2 ((e + int k) + 1)" by (rule arg_cong)
  also have "\<dots> = 2 * pow2 (e + int k)" by (rule pow2_Suc)
  finally show ?case using Suc.IH by simp
qed

lemma round_half_even_le:
  assumes "x \<le> of_int k"
  shows "round_half_even x \<le> k"
proof -
  from round_half_even_nearest [of x]
  have "\<bar>of_int (round_half_even x) - x\<bar> \<le> 1 / 2" by simp
  then have "of_int (round_half_even x) \<le> x + 1 / 2" by linarith
  with assms have "(of_int (round_half_even x) :: rat) < of_int (k + 1)" by simp
  then have "round_half_even x < k + 1" by (simp only: of_int_less_iff)
  then show ?thesis by simp
qed

text \<open>
  The result of rounding a positive number is \<open>n * 2 ^ q\<close> with a significand \<open>n\<close> of at
  most 24 bits (or \<open>2 ^ 24\<close> itself, the next power of two) and an exponent \<open>q\<close> of at
  least -149, and it lies within half a unit \<open>2 ^ q\<close> of the number.
\<close>

lemma f32_round_nearest:
  assumes "0 < x" and "f32_round neg x = Finite s r"
  shows "s = neg \<and> r < pow2 128 \<and>
         (\<exists>n q. r = of_int n * pow2 q \<and> 0 \<le> n \<and> n \<le> 2 ^ 24 \<and> - 149 \<le> q
                \<and> \<bar>r - x\<bar> \<le> pow2 q / 2)"
proof -
  define q where "q = max (floor_log2 x - 23) (- 149)"
  define n where "n = round_half_even (x / pow2 q)"
  from assms have r: "r = of_int n * pow2 q" and s: "s = neg" and fin: "r < pow2 128"
    by (auto simp: f32_round_def Let_def q_def n_def split: if_splits)
  have qp: "0 < pow2 q" by (rule pow2_pos)
  have n0: "0 \<le> n"
    unfolding n_def using assms(1) qp by (intro round_half_even_nonneg) simp
  obtain k where k: "floor_log2 x - 23 + int k = q"
    using q_def by (metis le_iff_add add.commute max.cobounded1 zle_iff_zadd)
  have "x < pow2 (floor_log2 x + 1)" using floor_log2_bounds [OF assms(1)] by simp
  also have "floor_log2 x + 1 = (floor_log2 x - 23) + int 24" by simp
  also have "pow2 \<dots> = pow2 (floor_log2 x - 23) * 2 ^ 24" by (rule pow2_add_nat)
  also have "\<dots> \<le> pow2 (floor_log2 x - 23) * 2 ^ k * 2 ^ 24"
    using pow2_pos [of "floor_log2 x - 23"] by simp
  also have "\<dots> = pow2 q * 2 ^ 24"
    using pow2_add_nat [of "floor_log2 x - 23" k] k by simp
  finally have "x / pow2 q < 2 ^ 24" using qp by (simp add: field_simps)
  then have "x / pow2 q \<le> of_int (2 ^ 24)" by simp
  then have n24: "n \<le> 2 ^ 24" unfolding n_def by (rule round_half_even_le)
  have "\<bar>of_int n - x / pow2 q\<bar> \<le> 1 / 2"
    unfolding n_def using round_half_even_nearest [of "x / pow2 q"] by simp
  then have "\<bar>of_int n - x / pow2 q\<bar> * pow2 q \<le> 1 / 2 * pow2 q"
    using qp by (intro mult_right_mono) simp_all
  moreover have "\<bar>of_int n - x / pow2 q\<bar> * pow2 q = \<bar>of_int n * pow2 q - x\<bar>"
  proof -
    have "\<bar>of_int n - x / pow2 q\<bar> * pow2 q = \<bar>(of_int n - x / pow2 q) * pow2 q\<bar>"
      using qp by (simp add: abs_mult)
    also have "(of_int n - x / pow2 q) * pow2 q = of_int n * pow2 q - x"
      using qp by (simp add: field_simps)
    finally show ?thesis .
  qed
  ultimately have err: "\<bar>r - x\<bar> \<le> pow2 q / 2" by (simp add: r)
  have "- 149 \<le> q" by (simp add: q_def)
  with r n0 n24 err s fin show ?thesis by blast
qed

subsection \<open>Temperatures on the wire\<close>

text \<open>
  C3. The wire value of a temperature is the \<^verbatim>\<open>float32\<close> product of the temperature
  and 100, printed without decimals. When the product is finite, with magnitude \<open>p\<close>,
  the digits printed are those of the integer nearest to \<open>p\<close>, of the even one when two
  are equally near: the distance is at most one half. The product is rounded, not
  truncated.
\<close>

theorem temperatureToWire_rounds:
  assumes "f32_mul targetTemperature (Finite False 100) = Finite s p" and "0 \<le> p"
  shows "temperatureToWire targetTemperature =
           (if s then ''-'' else []) @ digits_of (nat (round_half_even p))
         \<and> digits_val (digits_of (nat (round_half_even p))) = nat (round_half_even p)
         \<and> \<bar>of_nat (nat (round_half_even p)) - p\<bar> \<le> 1 / 2
         \<and> (\<bar>of_nat (nat (round_half_even p)) - p\<bar> = 1 / 2 \<longrightarrow> even (nat (round_half_even p)))"
proof -
  have n: "0 \<le> round_half_even p" using assms(2) by (rule round_half_even_nonneg)
  then have c: "(of_nat (nat (round_half_even p)) :: rat) = of_int (round_half_even p)"
    by simp
  have e: "even (nat (round_half_even p)) = even (round_half_even p)"
    using n by (simp add: even_nat_iff)
  have "temperatureToWire targetTemperature =
           (if s then ''-'' else []) @ digits_of (nat (round_half_even p))"
    by (simp add: temperatureToWire_def assms(1))
  with round_half_even_nearest [of p] show ?thesis
    unfolding c e by (simp add: digits_val_digits_of)
qed

lemma f32_21456: "f32_round False (21456 / 1000) = Finite False (11249123 / 524288)"
  by code_simp

lemma f32_21456_times_100:
  "f32_mul (Finite False (11249123 / 524288)) (Finite False 100) = Finite False (8788377 / 4096)"
  by code_simp

lemma wire_21456: "FormatFloat_f0 (Finite False (8788377 / 4096)) = ''2146''"
  by code_simp

theorem temperatureToWire_rounds_witness:
  "f32_mul (Finite False (11249123 / 524288)) (Finite False 100) = Finite False (8788377 / 4096)
   \<and> temperatureToWire (Finite False (11249123 / 524288)) = ''2146''
   \<and> \<bar>2146 - 8788377 / 4096 :: rat\<bar> \<le> 1 / 2"
proof -
  have r: "round_half_even (8788377 / 4096) = 2146"
    by code_simp
  have d: "digits_of 2146 = ''2146''"
    by code_simp
  show ?thesis
    using temperatureToWire_rounds [of "Finite False (11249123 / 524288)" False "8788377 / 4096"]
      f32_21456_times_100 r d
    by simp
qed

text \<open>
  The temperature 21.456, as the \<^verbatim>\<open>float32\<close> nearest to it, is written as 2146.
\<close>

theorem temperatureToWire_21456:
  "f32_round False (21456 / 1000) = Finite False (11249123 / 524288)
   \<and> temperatureToWire (Finite False (11249123 / 524288)) = ''2146''
   \<and> temperatureToWire (Finite False (11249123 / 524288)) \<noteq> ''2145''"
proof -
  have w: "temperatureToWire (Finite False (11249123 / 524288)) = ''2146''"
    by (simp only: temperatureToWire_def f32_21456_times_100 wire_21456)
  then have "temperatureToWire (Finite False (11249123 / 524288)) \<noteq> ''2145''"
    by simp
  with f32_21456 w show ?thesis by blast
qed

subsection \<open>Decoding a sensor\<close>







end
